theory Spec2Isabelle
  imports Main "HOL-Library.FSet" "HOL-Library.Sublist"
begin

section \<open>Real-time notification path of the task-management backend\<close>

text \<open>
  The development embeds \<^verbatim>\<open>app/services/notification_service.py\<close>
  (\<^verbatim>\<open>ConnectionManager\<close>, \<^verbatim>\<open>NotificationService\<close>), the model
  \<^verbatim>\<open>app/models/notification.py\<close> and the live-channel handler of
  \<^verbatim>\<open>app/api/v1/notifications.py\<close> with \<^verbatim>\<open>get_current_user_ws\<close> of
  \<^verbatim>\<open>app/api/deps/__init__.py\<close>.

  Conventions. A WebSocket object is a handle (a natural number; Python hashes the object
  by identity). Timestamps are integers. Every call into a library that the source awaits
  and that may raise takes its outcome from the environment: the handshake
  (\<^verbatim>\<open>websocket.accept\<close>), a push (\<^verbatim>\<open>send_json\<close>) and the store write
  (\<^verbatim>\<open>db.flush\<close>). A raised exception is a value of type \<open>py_exception\<close>; all
  of them are instances of Python's class \<^verbatim>\<open>Exception\<close>, which is what the handler
  \<^verbatim>\<open>except Exception\<close> catches. The tasks of the event loop are not interleaved: each
  operation runs from its call to its return.
\<close>

subsection \<open>Exceptions\<close>

datatype py_exception =
    MultipleResultsFound
  | StoreError string
  | TransportError string
  | ValueError string

subsection \<open>ConnectionManager\<close>

type_synonym ws = nat

text \<open>\<^verbatim>\<open>self.active_connections: dict[int, Set] = defaultdict(set)\<close>\<close>

type_synonym registry = "int \<rightharpoonup> ws fset"

definition init_registry :: registry where
  "init_registry = Map.empty"

text \<open>
  \<^verbatim>\<open>defaultdict.__getitem__\<close>: a missing key is first bound to a new empty set; the
  value and the dictionary after the access are returned.
\<close>

definition getitem :: "registry \<Rightarrow> int \<Rightarrow> ws fset \<times> registry" where
  "getitem reg user_id =
     (case reg user_id of
        Some s \<Rightarrow> (s, reg)
      | None \<Rightarrow> ({||}, reg(user_id \<mapsto> {||})))"

text \<open>
  \<^verbatim>\<open>connect\<close>: the handshake is awaited first; when it raises, the exception leaves
  \<^verbatim>\<open>connect\<close> and the dictionary has not been touched.
\<close>

definition connect :: "py_exception option \<Rightarrow> registry \<Rightarrow> ws \<Rightarrow> int \<Rightarrow> py_exception + registry" where
  "connect accept reg websocket user_id =
     (case accept of
        Some e \<Rightarrow> Inl e
      | None \<Rightarrow>
          (let (s, reg1) = getitem reg user_id
           in Inr (reg1(user_id \<mapsto> finsert websocket s))))"

definition disconnect :: "registry \<Rightarrow> ws \<Rightarrow> int \<Rightarrow> registry" where
  "disconnect reg websocket user_id =
     (let (s, reg1) = getitem reg user_id;
          reg2 = reg1(user_id \<mapsto> s |-| {|websocket|});
          (s', reg3) = getitem reg2 user_id
      in if s' = {||} then reg3(user_id := None) else reg3)"

text \<open>The connections of a user, read without touching the dictionary.\<close>

definition connections_of :: "registry \<Rightarrow> int \<Rightarrow> ws fset" where
  "connections_of reg user_id = (case reg user_id of None \<Rightarrow> {||} | Some s \<Rightarrow> s)"

text \<open>The invariant of the registry: no key is bound to the empty set.\<close>

definition no_empty_entry :: "registry \<Rightarrow> bool" where
  "no_empty_entry reg \<longleftrightarrow> (\<forall>u. reg u \<noteq> Some {||})"

text \<open>
  A sequence of calls on the registry. A \<open>Connect\<close> carries the outcome of its handshake;
  a failed one raises to its caller and leaves the registry as it was.
\<close>

datatype reg_call = Connect ws int "py_exception option" | Disconnect ws int

fun reg_step :: "registry \<Rightarrow> reg_call \<Rightarrow> registry" where
  "reg_step reg (Connect websocket user_id accept) =
     (case connect accept reg websocket user_id of Inl e \<Rightarrow> reg | Inr reg' \<Rightarrow> reg')"
| "reg_step reg (Disconnect websocket user_id) = disconnect reg websocket user_id"

fun reg_run :: "registry \<Rightarrow> reg_call list \<Rightarrow> registry" where
  "reg_run reg [] = reg"
| "reg_run reg (c # cs) = reg_run (reg_step reg c) cs"

subsection \<open>Pushing a message\<close>

datatype send_outcome = Sent | Raises py_exception

text \<open>
  One entry per call of \<^verbatim>\<open>connection.send_json(message)\<close>: the connection, the
  message and what the call did.
\<close>

type_synonym 'm push = "ws \<times> 'm \<times> send_outcome"

text \<open>
  The body of the \<^verbatim>\<open>for\<close> loop of \<^verbatim>\<open>send_personal_message\<close>, over the
  connections in the order the set yields them. The first component is the exception that
  leaves the loop, if any.
\<close>

fun send_each :: "(ws \<Rightarrow> 'm \<Rightarrow> send_outcome) \<Rightarrow> 'm \<Rightarrow> ws list \<Rightarrow> py_exception option \<times> 'm push list" where
  "send_each send_json message [] = (None, [])"
| "send_each send_json message (connection # rest) =
     (case send_json connection message of
        Sent \<Rightarrow>
          (let (r, log) = send_each send_json message rest
           in (r, (connection, message, Sent) # log))
      | Raises e \<Rightarrow> \<comment> \<open>\<^verbatim>\<open>except Exception: pass\<close>\<close>
          (let (r, log) = send_each send_json message rest
           in (r, (connection, message, Raises e) # log)))"

text \<open>
  \<^verbatim>\<open>send_personal_message\<close>. Python does not specify the order in which a set is
  iterated, so the order is a parameter \<open>iter_order\<close>.
\<close>

definition send_personal_message ::
  "(ws \<Rightarrow> 'm \<Rightarrow> send_outcome) \<Rightarrow> (ws fset \<Rightarrow> ws list) \<Rightarrow> registry \<Rightarrow> 'm \<Rightarrow> int
     \<Rightarrow> py_exception option \<times> 'm push list" where
  "send_personal_message send_json iter_order reg message user_id =
     (case reg user_id of
        Some s \<Rightarrow> send_each send_json message (iter_order s)
      | None \<Rightarrow> (None, []))"

text \<open>The connections that received the message: the pushes that did not raise.\<close>

definition delivered :: "'m push list \<Rightarrow> (ws \<times> 'm) list" where
  "delivered log = map (\<lambda>(c, m, out). (c, m)) (filter (\<lambda>(c, m, out). out = Sent) log)"

text \<open>An iteration order visits every element of the set once.\<close>

definition iterates :: "(ws fset \<Rightarrow> ws list) \<Rightarrow> ws fset \<Rightarrow> bool" where
  "iterates iter_order s \<longleftrightarrow> fset_of_list (iter_order s) = s \<and> distinct (iter_order s)"

subsection \<open>Notification model\<close>

datatype NotificationType =
    TASK_ASSIGNED | TASK_UPDATED | TASK_COMPLETED | TASK_DUE_SOON | TASK_OVERDUE
  | TEAM_INVITED | TEAM_REMOVED | COMMENT_ADDED | MENTION | SYSTEM

text \<open>The \<^verbatim>\<open>.value\<close> of a member of the enumeration.\<close>

fun type_value :: "NotificationType \<Rightarrow> string" where
  "type_value TASK_ASSIGNED = ''task_assigned''"
| "type_value TASK_UPDATED = ''task_updated''"
| "type_value TASK_COMPLETED = ''task_completed''"
| "type_value TASK_DUE_SOON = ''task_due_soon''"
| "type_value TASK_OVERDUE = ''task_overdue''"
| "type_value TEAM_INVITED = ''team_invited''"
| "type_value TEAM_REMOVED = ''team_removed''"
| "type_value COMMENT_ADDED = ''comment_added''"
| "type_value MENTION = ''mention''"
| "type_value SYSTEM = ''system''"

text \<open>A row of the table \<^verbatim>\<open>notifications\<close>.\<close>

record Notification =
  id' :: int
  user_id :: int
  type' :: NotificationType
  title :: string
  message :: string
  related_task_id :: "int option"
  related_team_id :: "int option"
  is_read :: bool
  created_at :: int
  read_at :: "int option"

text \<open>The schema \<^verbatim>\<open>NotificationCreate\<close>.\<close>

record NotificationCreate =
  nc_user_id :: int
  nc_type :: NotificationType
  nc_title :: string
  nc_message :: string
  nc_related_task_id :: "int option"
  nc_related_team_id :: "int option"

text \<open>The dictionary that \<^verbatim>\<open>_send_notification\<close> pushes.\<close>

record ws_data =
  data_id :: int
  data_type :: string
  data_title :: string
  data_message :: string
  data_related_task_id :: "int option"
  data_related_team_id :: "int option"
  data_created_at :: int

record ws_message =
  msg_type :: string
  msg_data :: ws_data

subsection \<open>The store and the environment\<close>

text \<open>
  The session on the table: its rows in insertion order and the next value of the
  autoincremented primary key.
\<close>

record db =
  rows :: "Notification list"
  next_id :: int

definition empty_db :: db where
  "empty_db = \<lparr>rows = [], next_id = 1\<rparr>"

text \<open>
  What the primary key guarantees: no two rows share an id, and the ids in use are below
  the next one.
\<close>

definition wf_db :: "db \<Rightarrow> bool" where
  "wf_db d \<longleftrightarrow> distinct (map id' (rows d)) \<and> list_all (\<lambda>n. id' n < next_id d) (rows d)"

text \<open>
  The environment of one call on the store: the clock
  (\<^verbatim>\<open>datetime.now(timezone.utc)\<close>) and the outcome of \<^verbatim>\<open>db.flush()\<close>
  (\<open>None\<close>: the write succeeds).
\<close>

record env =
  env_now :: int
  env_flush :: "py_exception option"

text \<open>
  The transport: what \<^verbatim>\<open>send_json\<close> does on each connection, and the order in
  which a set of connections is iterated.
\<close>

record net =
  net_send_json :: "ws \<Rightarrow> ws_message \<Rightarrow> send_outcome"
  net_iter_order :: "ws fset \<Rightarrow> ws list"

subsection \<open>NotificationService\<close>

text \<open>
  \<^verbatim>\<open>get_by_id\<close>: \<^verbatim>\<open>scalar_one_or_none\<close> returns the row, \<^verbatim>\<open>None\<close> when
  there is none, and raises when there are several.
\<close>

definition get_by_id :: "db \<Rightarrow> int \<Rightarrow> py_exception + Notification option" where
  "get_by_id d notification_id =
     (case filter (\<lambda>n. id' n = notification_id) (rows d) of
        [] \<Rightarrow> Inr None
      | [n] \<Rightarrow> Inr (Some n)
      | _ \<Rightarrow> Inl MultipleResultsFound)"

definition send_notification ::
  "net \<Rightarrow> registry \<Rightarrow> Notification \<Rightarrow> py_exception option \<times> ws_message push list" where
  "send_notification t reg notification =
     (let msg = \<lparr>msg_type = ''notification'',
                 msg_data = \<lparr>data_id = id' notification,
                             data_type = type_value (type' notification),
                             data_title = title notification,
                             data_message = message notification,
                             data_related_task_id = related_task_id notification,
                             data_related_team_id = related_team_id notification,
                             data_created_at = created_at notification\<rparr>\<rparr>
      in send_personal_message (net_send_json t) (net_iter_order t) reg msg (user_id notification))"

text \<open>
  \<^verbatim>\<open>create\<close>. The row gets its id, \<^verbatim>\<open>is_read = False\<close> and
  \<^verbatim>\<open>created_at\<close> from the column defaults when it is flushed;
  \<^verbatim>\<open>refresh\<close> reads that row back. The result is what the call returns or raises,
  the session afterwards and the pushes it made.
\<close>

definition create ::
  "env \<Rightarrow> net \<Rightarrow> registry \<Rightarrow> db \<Rightarrow> NotificationCreate
     \<Rightarrow> (py_exception + Notification) \<times> db \<times> ws_message push list" where
  "create e t reg d notification_data =
     (let notification =
            \<lparr>id' = next_id d,
             user_id = nc_user_id notification_data,
             type' = nc_type notification_data,
             title = nc_title notification_data,
             message = nc_message notification_data,
             related_task_id = nc_related_task_id notification_data,
             related_team_id = nc_related_team_id notification_data,
             is_read = False,
             created_at = env_now e,
             read_at = None\<rparr>
      in case env_flush e of
           Some err \<Rightarrow> (Inl err, d, [])
         | None \<Rightarrow>
             (let d' = d\<lparr>rows := rows d @ [notification], next_id := next_id d + 1\<rparr>;
                  (raised, log) = send_notification t reg notification
              in case raised of
                   Some err \<Rightarrow> (Inl err, d', log)
                 | None \<Rightarrow> (Inr notification, d', log)))"

text \<open>The row that a successful \<^verbatim>\<open>create\<close> stores for the given data.\<close>

definition created_row :: "env \<Rightarrow> db \<Rightarrow> NotificationCreate \<Rightarrow> Notification" where
  "created_row e d notification_data =
     \<lparr>id' = next_id d,
      user_id = nc_user_id notification_data,
      type' = nc_type notification_data,
      title = nc_title notification_data,
      message = nc_message notification_data,
      related_task_id = nc_related_task_id notification_data,
      related_team_id = nc_related_team_id notification_data,
      is_read = False,
      created_at = env_now e,
      read_at = None\<rparr>"

text \<open>
  \<^verbatim>\<open>get_user_notifications\<close>. The statement is ordered by \<^verbatim>\<open>created_at\<close>
  descending and then cut by \<^verbatim>\<open>OFFSET\<close> and \<^verbatim>\<open>LIMIT\<close>; rows with equal
  timestamps stay in insertion order here (SQL leaves their order open). The endpoint admits
  \<^verbatim>\<open>page >= 1\<close> and \<^verbatim>\<open>1 <= page_size <= 100\<close> only.
\<close>

definition get_user_notifications ::
  "db \<Rightarrow> int \<Rightarrow> bool \<Rightarrow> int \<Rightarrow> int \<Rightarrow> Notification list \<times> int" where
  "get_user_notifications d uid unread_only page page_size =
     (let query = filter (\<lambda>n. user_id n = uid) (rows d);
          query = (if unread_only then filter (\<lambda>n. is_read n = False) query else query);
          total = int (length query);
          offset = (page - 1) * page_size;
          notifications =
            take (nat page_size) (drop (nat offset) (sort_key (\<lambda>n. - created_at n) query))
      in (notifications, total))"

definition mark_as_read ::
  "env \<Rightarrow> db \<Rightarrow> int \<Rightarrow> int \<Rightarrow> (py_exception + Notification option) \<times> db" where
  "mark_as_read e d notification_id uid =
     (case get_by_id d notification_id of
        Inl err \<Rightarrow> (Inl err, d)
      | Inr None \<Rightarrow> (Inr None, d)
      | Inr (Some notification) \<Rightarrow>
          if user_id notification \<noteq> uid then (Inr None, d)
          else
            (let notification = notification\<lparr>is_read := True, read_at := Some (env_now e)\<rparr>
             in case env_flush e of
                  Some err \<Rightarrow> (Inl err, d)
                | None \<Rightarrow>
                    (Inr (Some notification),
                     d\<lparr>rows := map (\<lambda>n. if id' n = notification_id then notification else n)
                                  (rows d)\<rparr>)))"

text \<open>
  \<^verbatim>\<open>mark_all_as_read\<close>: one \<^verbatim>\<open>UPDATE\<close> on the rows of the user that are
  unread; \<^verbatim>\<open>rowcount\<close> is the number of rows it matched. The statement has run when
  the flush is awaited.
\<close>

definition mark_all_as_read :: "env \<Rightarrow> db \<Rightarrow> int \<Rightarrow> (py_exception + int) \<times> db" where
  "mark_all_as_read e d uid =
     (let matched = (\<lambda>n. user_id n = uid \<and> is_read n = False);
          rowcount = int (length (filter matched (rows d)));
          d' = d\<lparr>rows := map (\<lambda>n. if matched n
                                    then n\<lparr>is_read := True, read_at := Some (env_now e)\<rparr>
                                    else n) (rows d)\<rparr>
      in case env_flush e of
           Some err \<Rightarrow> (Inl err, d')
         | None \<Rightarrow> (Inr rowcount, d'))"

definition delete :: "env \<Rightarrow> db \<Rightarrow> int \<Rightarrow> int \<Rightarrow> (py_exception + bool) \<times> db" where
  "delete e d notification_id uid =
     (case get_by_id d notification_id of
        Inl err \<Rightarrow> (Inl err, d)
      | Inr None \<Rightarrow> (Inr False, d)
      | Inr (Some notification) \<Rightarrow>
          if user_id notification \<noteq> uid then (Inr False, d)
          else
            (case env_flush e of
               Some err \<Rightarrow> (Inl err, d)
             | None \<Rightarrow> (Inr True, d\<lparr>rows := filter (\<lambda>n. id' n \<noteq> notification_id) (rows d)\<rparr>)))"

definition get_unread_count :: "db \<Rightarrow> int \<Rightarrow> int" where
  "get_unread_count d uid =
     int (length (filter (\<lambda>n. user_id n = uid \<and> is_read n = False) (rows d)))"

text \<open>The convenience constructors; \<open>CHR 0x22\<close> is the double quote of the f-string.\<close>

definition notify_task_assigned ::
  "env \<Rightarrow> net \<Rightarrow> registry \<Rightarrow> db \<Rightarrow> int \<Rightarrow> string \<Rightarrow> int \<Rightarrow> string
     \<Rightarrow> (py_exception + Notification) \<times> db \<times> ws_message push list" where
  "notify_task_assigned e t reg d task_id task_title assignee_id assigner_name =
     create e t reg d
       \<lparr>nc_user_id = assignee_id,
        nc_type = TASK_ASSIGNED,
        nc_title = ''New Task Assigned'',
        nc_message = assigner_name @ '' assigned you to task '' @ [CHR 0x22] @ task_title @ [CHR 0x22],
        nc_related_task_id = Some task_id,
        nc_related_team_id = None\<rparr>"

definition notify_task_updated ::
  "env \<Rightarrow> net \<Rightarrow> registry \<Rightarrow> db \<Rightarrow> int \<Rightarrow> string \<Rightarrow> int \<Rightarrow> string
     \<Rightarrow> (py_exception + Notification) \<times> db \<times> ws_message push list" where
  "notify_task_updated e t reg d task_id task_title uid updater_name =
     create e t reg d
       \<lparr>nc_user_id = uid,
        nc_type = TASK_UPDATED,
        nc_title = ''Task Updated'',
        nc_message = updater_name @ '' updated task '' @ [CHR 0x22] @ task_title @ [CHR 0x22],
        nc_related_task_id = Some task_id,
        nc_related_team_id = None\<rparr>"

definition notify_task_completed ::
  "env \<Rightarrow> net \<Rightarrow> registry \<Rightarrow> db \<Rightarrow> int \<Rightarrow> string \<Rightarrow> int \<Rightarrow> string
     \<Rightarrow> (py_exception + Notification) \<times> db \<times> ws_message push list" where
  "notify_task_completed e t reg d task_id task_title uid completer_name =
     create e t reg d
       \<lparr>nc_user_id = uid,
        nc_type = TASK_COMPLETED,
        nc_title = ''Task Completed'',
        nc_message = completer_name @ '' completed task '' @ [CHR 0x22] @ task_title @ [CHR 0x22],
        nc_related_task_id = Some task_id,
        nc_related_team_id = None\<rparr>"

definition notify_team_invited ::
  "env \<Rightarrow> net \<Rightarrow> registry \<Rightarrow> db \<Rightarrow> int \<Rightarrow> string \<Rightarrow> int \<Rightarrow> string
     \<Rightarrow> (py_exception + Notification) \<times> db \<times> ws_message push list" where
  "notify_team_invited e t reg d team_id team_name uid inviter_name =
     create e t reg d
       \<lparr>nc_user_id = uid,
        nc_type = TEAM_INVITED,
        nc_title = ''Team Invitation'',
        nc_message = inviter_name @ '' added you to team '' @ [CHR 0x22] @ team_name @ [CHR 0x22],
        nc_related_task_id = None,
        nc_related_team_id = Some team_id\<rparr>"

subsection \<open>The live channel\<close>

text \<open>
  \<^verbatim>\<open>get_current_user_ws\<close>. \<^verbatim>\<open>decode_token\<close> lives in
  \<^verbatim>\<open>app/core/security.py\<close>, which is not part of the sources at hand, so it is a
  parameter: it yields the claims of the token or \<^verbatim>\<open>None\<close>. \<open>auth_int\<close> is
  Python's \<^verbatim>\<open>int\<close> on the subject claim (\<open>None\<close>: it raises
  \<^verbatim>\<open>ValueError\<close>), \<open>auth_user\<close> is \<^verbatim>\<open>UserService.get_by_id\<close>.
\<close>

record User =
  user_pk :: int
  is_active :: bool

record auth =
  decode_token :: "string \<Rightarrow> (string \<rightharpoonup> string) option"
  auth_int :: "string \<Rightarrow> int option"
  auth_user :: "int \<Rightarrow> User option"

definition get_current_user_ws :: "auth \<Rightarrow> string option \<Rightarrow> py_exception + User option" where
  "get_current_user_ws a token =
     (if token = None \<or> token = Some [] then Inr None
      else
        (case decode_token a (the token) of
           None \<Rightarrow> Inr None
         | Some payload \<Rightarrow>
             (case payload ''sub'' of
                None \<Rightarrow> Inr None
              | Some sub \<Rightarrow>
                  (case auth_int a sub of
                     None \<Rightarrow> Inl (ValueError sub)
                   | Some i \<Rightarrow> Inr (auth_user a i)))))"

text \<open>
  What \<^verbatim>\<open>receive_text\<close> yields, and the calls the handler makes on the socket and
  on the registry.
\<close>

datatype ws_event = ReceiveText string | WebSocketDisconnect

datatype ws_call = WsClose int string | WsSendText string | ManagerConnect int | ManagerDisconnect int

text \<open>
  The \<^verbatim>\<open>while True\<close> loop over the events that arrive. When they run out the
  handler stays suspended in \<^verbatim>\<open>receive_text\<close>.
\<close>

fun listen :: "registry \<Rightarrow> ws \<Rightarrow> int \<Rightarrow> ws_event list \<Rightarrow> ws_call list \<times> registry" where
  "listen reg websocket uid [] = ([], reg)"
| "listen reg websocket uid (ReceiveText data # events) =
     (if data = ''ping''
      then (let (calls, reg') = listen reg websocket uid events
            in (WsSendText ''pong'' # calls, reg'))
      else listen reg websocket uid events)"
| "listen reg websocket uid (WebSocketDisconnect # events) =
     ([ManagerDisconnect uid], disconnect reg websocket uid)"

definition websocket_endpoint ::
  "auth \<Rightarrow> py_exception option \<Rightarrow> registry \<Rightarrow> ws \<Rightarrow> string option \<Rightarrow> ws_event list
     \<Rightarrow> py_exception option \<times> ws_call list \<times> registry" where
  "websocket_endpoint a accept reg websocket token events =
     (if token = None \<or> token = Some [] then (None, [WsClose 4001 ''Missing token''], reg)
      else
        (case get_current_user_ws a token of
           Inl err \<Rightarrow> (Some err, [], reg)
         | Inr None \<Rightarrow> (None, [WsClose 4001 ''Invalid token''], reg)
         | Inr (Some user) \<Rightarrow>
             (case connect accept reg websocket (user_pk user) of
                Inl err \<Rightarrow> (Some err, [ManagerConnect (user_pk user)], reg)
              | Inr reg' \<Rightarrow>
                  (let (calls, reg'') = listen reg' websocket (user_pk user) events
                   in (None, ManagerConnect (user_pk user) # calls, reg'')))))"

section \<open>Properties\<close>

subsection \<open>The registry\<close>

lemma disconnect_apply:
  "disconnect reg w u v =
     (if v = u then (if connections_of reg u |-| {|w|} = {||} then None
                     else Some (connections_of reg u |-| {|w|}))
      else reg v)"
  by (auto simp: disconnect_def getitem_def connections_of_def Let_def split: option.splits)

lemma connect_apply:
  "connect None reg w u = Inr (reg(u \<mapsto> finsert w (connections_of reg u)))"
  by (auto simp: connect_def getitem_def connections_of_def split: option.splits)

lemma connect_fail: "connect (Some e) reg w u = Inl e"
  by (simp add: connect_def)

lemma reg_step_inv: "no_empty_entry reg \<Longrightarrow> no_empty_entry (reg_step reg c)"
proof (cases c)
  case (Connect w u a)
  assume "no_empty_entry reg"
  then show ?thesis using Connect
    by (cases a) (auto simp: no_empty_entry_def connect_apply connect_fail)
next
  case (Disconnect w u)
  assume "no_empty_entry reg"
  then show ?thesis using Disconnect
    by (auto simp: no_empty_entry_def disconnect_apply)
qed

lemma reg_run_inv: "no_empty_entry reg \<Longrightarrow> no_empty_entry (reg_run reg cs)"
  by (induction cs arbitrary: reg) (auto simp: reg_step_inv)

text \<open>
  Claim C1. Whatever sequence of \<^verbatim>\<open>connect\<close> and \<^verbatim>\<open>disconnect\<close> calls has run
  on the registry since it was created, no user is a key with an empty set of connections;
  and when a user holds no connection other than the one being disconnected, the user is no
  longer a key after that \<^verbatim>\<open>disconnect\<close>.
\<close>

theorem registry_garbage_collection:
  "no_empty_entry (reg_run init_registry calls) \<and>
   (\<forall>websocket u.
      connections_of (reg_run init_registry calls) u |\<subseteq>| {|websocket|} \<longrightarrow>
      u \<notin> dom (disconnect (reg_run init_registry calls) websocket u))"
proof -
  have "no_empty_entry init_registry"
    by (simp add: no_empty_entry_def init_registry_def)
  then have "no_empty_entry (reg_run init_registry calls)"
    by (rule reg_run_inv)
  moreover have "\<forall>websocket u.
      connections_of (reg_run init_registry calls) u |\<subseteq>| {|websocket|} \<longrightarrow>
      u \<notin> dom (disconnect (reg_run init_registry calls) websocket u)"
    by (auto simp: disconnect_apply dom_def)
  ultimately show ?thesis by simp
qed

theorem registry_garbage_collection_witness:
  "connections_of (reg_run init_registry [Connect 3 7 None, Connect 5 7 None, Disconnect 3 7]) 7 = {|5|} \<and>
   no_empty_entry (reg_run init_registry [Connect 3 7 None, Connect 5 7 None, Disconnect 3 7]) \<and>
   7 \<notin> dom (disconnect (reg_run init_registry [Connect 3 7 None, Connect 5 7 None, Disconnect 3 7]) 5 7)"
proof -
  have c: "connections_of (reg_run init_registry [Connect 3 7 None, Connect 5 7 None, Disconnect 3 7]) 7 = {|5|}"
    by (simp add: init_registry_def connect_apply disconnect_apply connections_of_def
        finsert_fminus_if)
  show ?thesis
    using registry_garbage_collection [of "[Connect 3 7 None, Connect 5 7 None, Disconnect 3 7]"] c
    by simp
qed

subsection \<open>Fan-out\<close>

lemma send_each_fst: "fst (send_each sj m cs) = None"
  by (induction cs) (auto split: send_outcome.splits prod.splits)

lemma send_each_log: "snd (send_each sj m cs) = map (\<lambda>c. (c, m, sj c m)) cs"
  by (induction cs) (auto split: send_outcome.splits prod.splits)

lemma delivered_map:
  "delivered (map (\<lambda>c. (c, m, sj c m)) cs) = map (\<lambda>c. (c, m)) (filter (\<lambda>c. sj c m = Sent) cs)"
  by (induction cs) (auto simp: delivered_def)

lemma spm_eq:
  "send_personal_message sj io reg m u =
     (None, map (\<lambda>c. (c, m, sj c m)) (case reg u of None \<Rightarrow> [] | Some s \<Rightarrow> io s))"
  by (simp add: send_personal_message_def prod_eq_iff send_each_fst send_each_log
      split: option.splits)

text \<open>
  Claim C2. \<^verbatim>\<open>send_personal_message\<close> raises nothing to its caller; it calls
  \<^verbatim>\<open>send_json\<close> once on every connection registered for the user and on no other,
  whatever the other calls did; so every connection whose own send succeeds receives the
  message, also when the send on another connection of the user raises.
\<close>

theorem fan_out_failure_isolation:
  assumes "iterates order (connections_of reg uid)"
  shows "fst (send_personal_message sj order reg msg uid) = None \<and>
         (\<forall>c. c |\<in>| connections_of reg uid \<longrightarrow>
              (c, msg, sj c msg) \<in> set (snd (send_personal_message sj order reg msg uid))) \<and>
         (\<forall>c. c |\<in>| connections_of reg uid \<and> sj c msg = Sent \<longrightarrow>
              (c, msg) \<in> set (delivered (snd (send_personal_message sj order reg msg uid)))) \<and>
         distinct (map fst (snd (send_personal_message sj order reg msg uid))) \<and>
         fset_of_list (map fst (snd (send_personal_message sj order reg msg uid)))
           = connections_of reg uid"
proof (cases "reg uid")
  case None
  then show ?thesis
    by (simp add: spm_eq connections_of_def)
next
  case (Some s)
  with assms have it: "fset_of_list (order s) = s" "distinct (order s)"
    by (simp_all add: iterates_def connections_of_def)
  have mem: "\<And>c. c |\<in>| s \<longleftrightarrow> c \<in> set (order s)"
    using it(1) by (metis fset_of_list_elem)
  have m1: "map fst (map (\<lambda>c. (c, msg, sj c msg)) (order s)) = order s"
    by (simp add: comp_def)
  show ?thesis
    using Some it mem
    by (auto simp: spm_eq connections_of_def delivered_map m1 simp del: map_map)
qed

theorem fan_out_failure_isolation_witness:
  "iterates sorted_list_of_fset (connections_of [7 \<mapsto> {|3, 5|}] 7) \<and>
   send_personal_message (\<lambda>c m. if c = 3 then Raises (TransportError ''closed'') else Sent)
      sorted_list_of_fset [7 \<mapsto> {|3, 5|}] ''hello'' 7
     = (None, [(3, ''hello'', Raises (TransportError ''closed'')), (5, ''hello'', Sent)]) \<and>
   (5, ''hello'') \<in> set (delivered (snd (send_personal_message
      (\<lambda>c m. if c = 3 then Raises (TransportError ''closed'') else Sent)
      sorted_list_of_fset [7 \<mapsto> {|3, 5|}] ''hello'' 7)))"
proof -
  have s: "sorted_list_of_fset {|3, 5 :: nat|} = [3, 5]"
    by (simp add: sorted_list_of_fset.rep_eq)
  have h: "iterates sorted_list_of_fset (connections_of [7 \<mapsto> {|3, 5|}] 7)"
    by (simp add: iterates_def connections_of_def s)
  show ?thesis
    using h fan_out_failure_isolation [OF h,
        of "\<lambda>c m. if c = 3 then Raises (TransportError ''closed'') else Sent" "''hello''"]
    by (simp add: send_personal_message_def s)
qed

subsection \<open>The store\<close>

lemma filter_id_distinct:
  "distinct (map f xs) \<Longrightarrow> x \<in> set xs \<Longrightarrow> filter (\<lambda>n. f n = f x) xs = [x]"
proof (induction xs)
  case Nil
  then show ?case by simp
next
  case (Cons a xs)
  show ?case
  proof (cases "a = x")
    case True
    with Cons.prems have "\<forall>n\<in>set xs. f n \<noteq> f x" by (auto simp: image_iff)
    then have "filter (\<lambda>n. f n = f x) xs = []" by (simp add: filter_empty_conv)
    with True show ?thesis by simp
  next
    case False
    with Cons.prems have "x \<in> set xs" "f a \<noteq> f x" by auto
    with Cons.IH Cons.prems show ?thesis by simp
  qed
qed

lemma get_by_id_present:
  "wf_db d \<Longrightarrow> n \<in> set (rows d) \<Longrightarrow> get_by_id d (id' n) = Inr (Some n)"
  by (simp add: get_by_id_def wf_db_def filter_id_distinct)

lemma get_by_id_absent:
  "notification_id \<notin> id' ` set (rows d) \<Longrightarrow> get_by_id d notification_id = Inr None"
proof -
  assume "notification_id \<notin> id' ` set (rows d)"
  then have "filter (\<lambda>n. id' n = notification_id) (rows d) = []"
    by (auto simp: filter_empty_conv)
  then show ?thesis by (simp add: get_by_id_def)
qed

lemma get_by_id_SomeD:
  "get_by_id d i = Inr (Some n) \<Longrightarrow> filter (\<lambda>x. id' x = i) (rows d) = [n]"
  by (auto simp: get_by_id_def split: list.splits)

lemma send_notification_fst: "fst (send_notification t reg n) = None"
  by (simp add: send_notification_def spm_eq Let_def)

lemma create_ok:
  "env_flush e = None \<Longrightarrow>
   create e t reg d nd =
     (Inr (created_row e d nd),
      d\<lparr>rows := rows d @ [created_row e d nd], next_id := next_id d + 1\<rparr>,
      snd (send_notification t reg (created_row e d nd)))"
  using send_notification_fst [of t reg "created_row e d nd"]
  by (auto simp: create_def created_row_def Let_def split: prod.splits option.splits)

lemma create_fail:
  "env_flush e = Some err \<Longrightarrow> create e t reg d nd = (Inl err, d, [])"
  by (simp add: create_def)

lemma wf_db_append:
  "wf_db d \<Longrightarrow> id' n = next_id d \<Longrightarrow> wf_db (d\<lparr>rows := rows d @ [n], next_id := next_id d + 1\<rparr>)"
  by (auto simp: wf_db_def list_all_iff)

lemma in_some_page:
  assumes "x \<in> set xs" "0 < k"
  shows "\<exists>p. x \<in> set (take k (drop (p * k) xs))"
proof -
  from assms(1) obtain i where i: "i < length xs" "xs ! i = x"
    by (auto simp: in_set_conv_nth)
  let ?p = "i div k"
  have a: "?p * k + i mod k = i" by simp
  have b: "i mod k < k" using assms(2) by simp
  have "drop (?p * k) xs ! (i mod k) = x"
    using i a by (metis add_leD1 le_eq_less_or_eq nth_drop order_less_imp_le)
  moreover have "i mod k < length (drop (?p * k) xs)"
    using i a by (simp; linarith)
  ultimately have "x \<in> set (take k (drop (?p * k) xs))"
    using b by (metis in_set_conv_nth length_take min_less_iff_conj nth_take)
  then show ?thesis ..
qed

lemma unread_count_append:
  "get_unread_count (d\<lparr>rows := rows d @ [n], next_id := k\<rparr>) u =
     get_unread_count d u + (if user_id n = u \<and> \<not> is_read n then 1 else 0)"
  by (simp add: get_unread_count_def)

lemma listed_in_some_page:
  assumes "n \<in> set (rows d)" "unread_only \<longrightarrow> \<not> is_read n" "1 \<le> page_size"
  shows "\<exists>page\<ge>1. n \<in> set (fst (get_user_notifications d (user_id n) unread_only page page_size))"
proof -
  let ?q = "filter (\<lambda>x. user_id x = user_id n) (rows d)"
  let ?q' = "if unread_only then filter (\<lambda>x. is_read x = False) ?q else ?q"
  let ?s = "sort_key (\<lambda>x. - created_at x) ?q'"
  have ns: "n \<in> set ?s" using assms(1,2) by auto
  have k: "0 < nat page_size" using assms(3) by simp
  from in_some_page [OF ns k]
  obtain p where p: "n \<in> set (take (nat page_size) (drop (p * nat page_size) ?s))" ..
  have "nat ((int p + 1 - 1) * page_size) = p * nat page_size"
    using assms(3) by (simp add: nat_mult_distrib)
  with p have "n \<in> set (fst (get_user_notifications d (user_id n) unread_only (int p + 1) page_size))"
    by (simp add: get_user_notifications_def Let_def)
  moreover have "1 \<le> int p + 1" by simp
  ultimately show ?thesis by blast
qed

lemma total_append:
  "snd (get_user_notifications (d\<lparr>rows := rows d @ [n], next_id := k\<rparr>) u uo p ps) =
     snd (get_user_notifications d u uo p ps) + (if user_id n = u \<and> (uo \<longrightarrow> \<not> is_read n) then 1 else 0)"
  by (simp add: get_user_notifications_def Let_def)

lemma send_notification_ids:
  "\<forall>(c, m, out) \<in> set (snd (send_notification t reg n)). data_id (msg_data m) = id' n"
  by (auto simp: send_notification_def spm_eq Let_def)

lemma send_notification_none:
  "reg (user_id n) = None \<Longrightarrow> snd (send_notification t reg n) = []"
  by (simp add: send_notification_def spm_eq Let_def)

lemma send_notification_log:
  "snd (send_notification t reg n) =
     map (\<lambda>c. (c,
            \<lparr>msg_type = ''notification'',
             msg_data = \<lparr>data_id = id' n, data_type = type_value (type' n),
                         data_title = title n, data_message = message n,
                         data_related_task_id = related_task_id n,
                         data_related_team_id = related_team_id n,
                         data_created_at = created_at n\<rparr>\<rparr>,
            net_send_json t c
              \<lparr>msg_type = ''notification'',
               msg_data = \<lparr>data_id = id' n, data_type = type_value (type' n),
                           data_title = title n, data_message = message n,
                           data_related_task_id = related_task_id n,
                           data_related_team_id = related_team_id n,
                           data_created_at = created_at n\<rparr>\<rparr>))
         (case reg (user_id n) of None \<Rightarrow> [] | Some s \<Rightarrow> net_iter_order t s)"
  by (simp add: send_notification_def spm_eq Let_def)

lemma send_notification_targets:
  "map fst (snd (send_notification t reg n)) =
     (case reg (user_id n) of None \<Rightarrow> [] | Some s \<Rightarrow> net_iter_order t s)"
  by (simp add: send_notification_log comp_def)

lemma send_notification_payload:
  "\<forall>(c, m, out) \<in> set (snd (send_notification t reg n)).
      msg_type m = ''notification'' \<and>
      data_id (msg_data m) = id' n \<and>
      data_type (msg_data m) = type_value (type' n) \<and>
      data_title (msg_data m) = title n \<and>
      data_message (msg_data m) = message n \<and>
      data_related_task_id (msg_data m) = related_task_id n \<and>
      data_related_team_id (msg_data m) = related_team_id n \<and>
      data_created_at (msg_data m) = created_at n \<and>
      out = net_send_json t c m"
  by (auto simp: send_notification_log)

lemma create_pushes_stored:
  "\<forall>(c, m, out) \<in> set (snd (snd (create e t reg d nd))).
      \<exists>n. fst (create e t reg d nd) = Inr n \<and>
          n \<in> set (rows (fst (snd (create e t reg d nd)))) \<and>
          data_id (msg_data m) = id' n"
proof (cases "env_flush e")
  case None
  then show ?thesis
    using send_notification_ids [of t reg "created_row e d nd"]
    by (simp add: create_ok)
next
  case (Some err)
  then show ?thesis by (simp add: create_fail)
qed

text \<open>
  Claim C3. \<^verbatim>\<open>create\<close> stores the row before it pushes anything. When the flush
  raises, the call raises that exception, the store is as before and the push log is empty,
  whatever connections the user holds; and every push that \<^verbatim>\<open>create\<close> makes,
  under any outcome of the flush, carries the id of a row that the call returns and the
  store holds. When the store accepts the write, \<^verbatim>\<open>create\<close> returns the row it has
  stored: the row is the last one of the table, \<^verbatim>\<open>get_by_id\<close> finds it under its id,
  the unread count of its user and the total of the user's listing have grown by one, and for
  every page size some page of the listing (with or without \<^verbatim>\<open>unread_only\<close>)
  contains it. The pushes then go to the connections of the user, one each in iteration
  order, with the fields of the stored row; when the user is not a key of the registry no
  push is made and the call returns the row all the same.
\<close>

theorem create_persists_before_push:
  assumes "wf_db d"
  shows "(\<forall>err. env_flush e = Some err \<longrightarrow> create e t reg d nd = (Inl err, d, [])) \<and>
         (\<forall>(c, m, out) \<in> set (snd (snd (create e t reg d nd))).
            \<exists>n. fst (create e t reg d nd) = Inr n \<and>
                n \<in> set (rows (fst (snd (create e t reg d nd)))) \<and>
                data_id (msg_data m) = id' n) \<and>
         (env_flush e = None \<longrightarrow>
           (\<exists>n d' log.
             create e t reg d nd = (Inr n, d', log) \<and>
             wf_db d' \<and>
             rows d' = rows d @ [n] \<and>
             get_by_id d' (id' n) = Inr (Some n) \<and>
             user_id n = nc_user_id nd \<and>
             get_unread_count d' (user_id n) = get_unread_count d (user_id n) + 1 \<and>
             (\<forall>unread_only page_size. 1 \<le> page_size \<longrightarrow>
                (\<exists>page\<ge>1. n \<in> set (fst (get_user_notifications d' (user_id n) unread_only page page_size)))) \<and>
             (\<forall>unread_only page page_size.
                snd (get_user_notifications d' (user_id n) unread_only page page_size) =
                  snd (get_user_notifications d (user_id n) unread_only page page_size) + 1) \<and>
             map fst log = (case reg (user_id n) of None \<Rightarrow> [] | Some s \<Rightarrow> net_iter_order t s) \<and>
             (\<forall>(c, m, out) \<in> set log.
                msg_type m = ''notification'' \<and>
                data_id (msg_data m) = id' n \<and>
                data_type (msg_data m) = type_value (type' n) \<and>
                data_title (msg_data m) = title n \<and>
                data_message (msg_data m) = message n \<and>
                data_related_task_id (msg_data m) = related_task_id n \<and>
                data_related_team_id (msg_data m) = related_team_id n \<and>
                data_created_at (msg_data m) = created_at n \<and>
                out = net_send_json t c m) \<and>
             (reg (user_id n) = None \<longrightarrow> log = [])))"
proof (intro conjI)
  show "\<forall>err. env_flush e = Some err \<longrightarrow> create e t reg d nd = (Inl err, d, [])"
    by (simp add: create_fail)
next
  show "\<forall>(c, m, out) \<in> set (snd (snd (create e t reg d nd))).
            \<exists>n. fst (create e t reg d nd) = Inr n \<and>
                n \<in> set (rows (fst (snd (create e t reg d nd)))) \<and>
                data_id (msg_data m) = id' n"
    by (rule create_pushes_stored)
next
  let ?n = "created_row e d nd"
  let ?d = "d\<lparr>rows := rows d @ [?n], next_id := next_id d + 1\<rparr>"
  let ?log = "snd (send_notification t reg ?n)"
  let ?P = "\<lambda>n d' log.
             create e t reg d nd = (Inr n, d', log) \<and>
             wf_db d' \<and>
             rows d' = rows d @ [n] \<and>
             get_by_id d' (id' n) = Inr (Some n) \<and>
             user_id n = nc_user_id nd \<and>
             get_unread_count d' (user_id n) = get_unread_count d (user_id n) + 1 \<and>
             (\<forall>unread_only page_size. 1 \<le> page_size \<longrightarrow>
                (\<exists>page\<ge>1. n \<in> set (fst (get_user_notifications d' (user_id n) unread_only page page_size)))) \<and>
             (\<forall>unread_only page page_size.
                snd (get_user_notifications d' (user_id n) unread_only page page_size) =
                  snd (get_user_notifications d (user_id n) unread_only page page_size) + 1) \<and>
             map fst log = (case reg (user_id n) of None \<Rightarrow> [] | Some s \<Rightarrow> net_iter_order t s) \<and>
             (\<forall>(c, m, out) \<in> set log.
                msg_type m = ''notification'' \<and>
                data_id (msg_data m) = id' n \<and>
                data_type (msg_data m) = type_value (type' n) \<and>
                data_title (msg_data m) = title n \<and>
                data_message (msg_data m) = message n \<and>
                data_related_task_id (msg_data m) = related_task_id n \<and>
                data_related_team_id (msg_data m) = related_team_id n \<and>
                data_created_at (msg_data m) = created_at n \<and>
                out = net_send_json t c m) \<and>
             (reg (user_id n) = None \<longrightarrow> log = [])"
  show "env_flush e = None \<longrightarrow> (\<exists>n d' log. ?P n d' log)"
  proof
    assume ok: "env_flush e = None"
    have c: "create e t reg d nd = (Inr ?n, ?d, ?log)"
      using ok by (rule create_ok)
    have idn: "id' ?n = next_id d" and un: "user_id ?n = nc_user_id nd" and rd: "\<not> is_read ?n"
      by (simp_all add: created_row_def)
    have wf: "wf_db ?d" using assms idn by (rule wf_db_append)
    have mem: "?n \<in> set (rows ?d)" by simp
    have g: "get_by_id ?d (id' ?n) = Inr (Some ?n)" using wf mem by (rule get_by_id_present)
    have u: "get_unread_count ?d (user_id ?n) = get_unread_count d (user_id ?n) + 1"
      using rd by (simp add: unread_count_append)
    have l: "\<forall>unread_only page_size. 1 \<le> page_size \<longrightarrow>
                (\<exists>page\<ge>1. ?n \<in> set (fst (get_user_notifications ?d (user_id ?n) unread_only page page_size)))"
      using listed_in_some_page [OF mem] rd by blast
    have tot: "\<forall>unread_only page page_size.
                snd (get_user_notifications ?d (user_id ?n) unread_only page page_size) =
                  snd (get_user_notifications d (user_id ?n) unread_only page page_size) + 1"
      using rd by (simp add: total_append)
    have tg: "map fst ?log = (case reg (user_id ?n) of None \<Rightarrow> [] | Some s \<Rightarrow> net_iter_order t s)"
      by (rule send_notification_targets)
    have pl: "\<forall>(c, m, out) \<in> set ?log.
                msg_type m = ''notification'' \<and>
                data_id (msg_data m) = id' ?n \<and>
                data_type (msg_data m) = type_value (type' ?n) \<and>
                data_title (msg_data m) = title ?n \<and>
                data_message (msg_data m) = message ?n \<and>
                data_related_task_id (msg_data m) = related_task_id ?n \<and>
                data_related_team_id (msg_data m) = related_team_id ?n \<and>
                data_created_at (msg_data m) = created_at ?n \<and>
                out = net_send_json t c m"
      by (rule send_notification_payload)
    have z: "reg (user_id ?n) = None \<longrightarrow> ?log = []"
      by (simp add: send_notification_none)
    have r: "rows ?d = rows d @ [?n]" by simp
    have "?P ?n ?d ?log"
      using c wf r g un u l tot tg pl z by (intro conjI) assumption+
    then show "\<exists>n d' log. ?P n d' log" by (intro exI)
  qed
qed

theorem create_persists_before_push_witness:
  "wf_db empty_db \<and>
   create \<lparr>env_now = 100, env_flush = Some (StoreError ''disk full'')\<rparr>
          \<lparr>net_send_json = (\<lambda>c m. Sent), net_iter_order = sorted_list_of_fset\<rparr>
          [7 \<mapsto> {|3|}] empty_db
          \<lparr>nc_user_id = 7, nc_type = SYSTEM, nc_title = ''t'', nc_message = ''m'',
           nc_related_task_id = None, nc_related_team_id = None\<rparr>
     = (Inl (StoreError ''disk full''), empty_db, []) \<and>
   create \<lparr>env_now = 100, env_flush = None\<rparr>
          \<lparr>net_send_json = (\<lambda>c m. Sent), net_iter_order = sorted_list_of_fset\<rparr>
          [7 \<mapsto> {|3|}] empty_db
          \<lparr>nc_user_id = 7, nc_type = SYSTEM, nc_title = ''t'', nc_message = ''m'',
           nc_related_task_id = None, nc_related_team_id = None\<rparr>
     = (Inr \<lparr>id' = 1, user_id = 7, type' = SYSTEM, title = ''t'', message = ''m'',
             related_task_id = None, related_team_id = None, is_read = False,
             created_at = 100, read_at = None\<rparr>,
        \<lparr>rows = [\<lparr>id' = 1, user_id = 7, type' = SYSTEM, title = ''t'', message = ''m'',
             related_task_id = None, related_team_id = None, is_read = False,
             created_at = 100, read_at = None\<rparr>], next_id = 2\<rparr>,
        [(3, \<lparr>msg_type = ''notification'',
              msg_data = \<lparr>data_id = 1, data_type = ''system'', data_title = ''t'',
                          data_message = ''m'', data_related_task_id = None,
                          data_related_team_id = None, data_created_at = 100\<rparr>\<rparr>, Sent)]) \<and>
   get_unread_count
     (fst (snd (create \<lparr>env_now = 100, env_flush = None\<rparr>
          \<lparr>net_send_json = (\<lambda>c m. Sent), net_iter_order = sorted_list_of_fset\<rparr>
          [7 \<mapsto> {|3|}] empty_db
          \<lparr>nc_user_id = 7, nc_type = SYSTEM, nc_title = ''t'', nc_message = ''m'',
           nc_related_task_id = None, nc_related_team_id = None\<rparr>))) 7 = 1"
proof -
  let ?ok = "\<lparr>env_now = 100, env_flush = None\<rparr>"
  let ?bad = "\<lparr>env_now = 100, env_flush = Some (StoreError ''disk full'')\<rparr>"
  let ?t = "\<lparr>net_send_json = (\<lambda>c m. Sent), net_iter_order = sorted_list_of_fset\<rparr>"
  let ?reg = "[7 \<mapsto> {|3::nat|}]"
  let ?nd = "\<lparr>nc_user_id = 7, nc_type = SYSTEM, nc_title = ''t'', nc_message = ''m'',
           nc_related_task_id = None, nc_related_team_id = None\<rparr>"
  have h1: "wf_db empty_db" by (simp add: wf_db_def empty_db_def)
  have h2: "env_flush ?ok = None" by simp
  have h3: "env_flush ?bad = Some (StoreError ''disk full'')" by simp
  from create_persists_before_push [OF h1, of ?bad ?t ?reg ?nd]
  have "\<forall>err. env_flush ?bad = Some err \<longrightarrow> create ?bad ?t ?reg empty_db ?nd = (Inl err, empty_db, [])"
    by (rule conjunct1)
  with h3 have f: "create ?bad ?t ?reg empty_db ?nd = (Inl (StoreError ''disk full''), empty_db, [])"
    by blast
  from create_persists_before_push [OF h1, of ?ok ?t ?reg ?nd] h2
  obtain n d' log where c: "create ?ok ?t ?reg empty_db ?nd = (Inr n, d', log)"
    and un: "user_id n = nc_user_id ?nd"
    and u: "get_unread_count d' (user_id n) = get_unread_count empty_db (user_id n) + 1"
    by blast
  have z: "get_unread_count empty_db 7 = 0"
    by (simp add: get_unread_count_def empty_db_def)
  have cnt: "get_unread_count (fst (snd (create ?ok ?t ?reg empty_db ?nd))) 7 = 1"
    using c un u z by simp
  have s: "sorted_list_of_fset {|3::nat|} = [3]"
    by (simp add: sorted_list_of_fset.rep_eq)
  have ev: "create ?ok ?t ?reg empty_db ?nd
     = (Inr \<lparr>id' = 1, user_id = 7, type' = SYSTEM, title = ''t'', message = ''m'',
             related_task_id = None, related_team_id = None, is_read = False,
             created_at = 100, read_at = None\<rparr>,
        \<lparr>rows = [\<lparr>id' = 1, user_id = 7, type' = SYSTEM, title = ''t'', message = ''m'',
             related_task_id = None, related_team_id = None, is_read = False,
             created_at = 100, read_at = None\<rparr>], next_id = 2\<rparr>,
        [(3, \<lparr>msg_type = ''notification'',
              msg_data = \<lparr>data_id = 1, data_type = ''system'', data_title = ''t'',
                          data_message = ''m'', data_related_task_id = None,
                          data_related_team_id = None, data_created_at = 100\<rparr>\<rparr>, Sent)])"
    by (simp add: create_def send_notification_def send_personal_message_def empty_db_def
        Let_def s)
  show ?thesis
    by (intro conjI) (rule h1 f ev cnt)+
qed

text \<open>
  Claim C5. When the flush raises, \<^verbatim>\<open>create\<close> raises that same exception, the store
  is unchanged and no push has been made. When the flush succeeds, \<^verbatim>\<open>create\<close>
  returns the stored row whatever the transport does: a failing push never leaves
  \<^verbatim>\<open>create\<close>.
\<close>

theorem create_failure_policy:
  "(env_flush e = Some err \<longrightarrow> create e t reg d nd = (Inl err, d, [])) \<and>
   (env_flush e = None \<longrightarrow>
      fst (create e t reg d nd) = Inr (created_row e d nd) \<and>
      created_row e d nd \<in> set (rows (fst (snd (create e t reg d nd)))) \<and>
      rows (fst (snd (create e t reg d nd))) = rows d @ [created_row e d nd])"
  by (simp add: create_ok create_fail)

theorem create_failure_policy_witness:
  "env_flush \<lparr>env_now = 100, env_flush = Some (StoreError ''disk full'')\<rparr>
     = Some (StoreError ''disk full'') \<and>
   create \<lparr>env_now = 100, env_flush = Some (StoreError ''disk full'')\<rparr>
          \<lparr>net_send_json = (\<lambda>c m. Sent), net_iter_order = sorted_list_of_fset\<rparr>
          [7 \<mapsto> {|3|}] empty_db
          \<lparr>nc_user_id = 7, nc_type = SYSTEM, nc_title = ''t'', nc_message = ''m'',
           nc_related_task_id = None, nc_related_team_id = None\<rparr>
     = (Inl (StoreError ''disk full''), empty_db, []) \<and>
   env_flush \<lparr>env_now = 100, env_flush = None\<rparr> = None \<and>
   fst (create \<lparr>env_now = 100, env_flush = None\<rparr>
          \<lparr>net_send_json = (\<lambda>c m. Raises (TransportError ''closed'')),
           net_iter_order = sorted_list_of_fset\<rparr>
          [7 \<mapsto> {|3|}] empty_db
          \<lparr>nc_user_id = 7, nc_type = SYSTEM, nc_title = ''t'', nc_message = ''m'',
           nc_related_task_id = None, nc_related_team_id = None\<rparr>)
     = Inr \<lparr>id' = 1, user_id = 7, type' = SYSTEM, title = ''t'', message = ''m'',
            related_task_id = None, related_team_id = None, is_read = False,
            created_at = 100, read_at = None\<rparr>"
proof -
  let ?nd = "\<lparr>nc_user_id = 7, nc_type = SYSTEM, nc_title = ''t'', nc_message = ''m'',
           nc_related_task_id = None, nc_related_team_id = None\<rparr>"
  show ?thesis
    using create_failure_policy [of "\<lparr>env_now = 100, env_flush = Some (StoreError ''disk full'')\<rparr>"
        "StoreError ''disk full''"
        "\<lparr>net_send_json = (\<lambda>c m. Sent), net_iter_order = sorted_list_of_fset\<rparr>"
        "[7 \<mapsto> {|3|}]" empty_db ?nd]
      create_failure_policy [of "\<lparr>env_now = 100, env_flush = None\<rparr>" "StoreError []"
        "\<lparr>net_send_json = (\<lambda>c m. Raises (TransportError ''closed'')),
           net_iter_order = sorted_list_of_fset\<rparr>"
        "[7 \<mapsto> {|3|}]" empty_db ?nd]
    by (simp add: created_row_def empty_db_def)
qed

subsection \<open>Ownership\<close>

text \<open>
  Claim C4. For a notification that exists and is owned by somebody else,
  \<^verbatim>\<open>mark_as_read\<close> returns \<^verbatim>\<open>None\<close> and \<^verbatim>\<open>delete\<close> returns
  \<^verbatim>\<open>False\<close>, exactly as they do for an id that no row has, and the store is left as
  it was.
\<close>

theorem ownership_indistinguishable_from_absence:
  assumes "wf_db d"
    and "n \<in> set (rows d)"
    and "user_id n \<noteq> caller"
    and "absent_id \<notin> id' ` set (rows d)"
  shows "mark_as_read e d (id' n) caller = (Inr None, d) \<and>
         mark_as_read e d absent_id caller = (Inr None, d) \<and>
         delete e d (id' n) caller = (Inr False, d) \<and>
         delete e d absent_id caller = (Inr False, d)"
proof -
  have p: "get_by_id d (id' n) = Inr (Some n)"
    using assms(1,2) by (rule get_by_id_present)
  have a: "get_by_id d absent_id = Inr None"
    using assms(4) by (rule get_by_id_absent)
  show ?thesis
    using p a assms(3) by (simp add: mark_as_read_def delete_def)
qed

theorem ownership_indistinguishable_from_absence_witness:
  "wf_db \<lparr>rows = [\<lparr>id' = 1, user_id = 7, type' = SYSTEM, title = ''t'', message = ''m'',
        related_task_id = None, related_team_id = None, is_read = False,
        created_at = 100, read_at = None\<rparr>], next_id = 2\<rparr> \<and>
   99 \<notin> id' ` set (rows \<lparr>rows = [\<lparr>id' = 1, user_id = 7, type' = SYSTEM, title = ''t'',
        message = ''m'', related_task_id = None, related_team_id = None, is_read = False,
        created_at = 100, read_at = None\<rparr>], next_id = 2\<rparr>) \<and>
   mark_as_read \<lparr>env_now = 200, env_flush = None\<rparr>
     \<lparr>rows = [\<lparr>id' = 1, user_id = 7, type' = SYSTEM, title = ''t'', message = ''m'',
        related_task_id = None, related_team_id = None, is_read = False,
        created_at = 100, read_at = None\<rparr>], next_id = 2\<rparr> 1 8
     = mark_as_read \<lparr>env_now = 200, env_flush = None\<rparr>
     \<lparr>rows = [\<lparr>id' = 1, user_id = 7, type' = SYSTEM, title = ''t'', message = ''m'',
        related_task_id = None, related_team_id = None, is_read = False,
        created_at = 100, read_at = None\<rparr>], next_id = 2\<rparr> 99 8 \<and>
   delete \<lparr>env_now = 200, env_flush = None\<rparr>
     \<lparr>rows = [\<lparr>id' = 1, user_id = 7, type' = SYSTEM, title = ''t'', message = ''m'',
        related_task_id = None, related_team_id = None, is_read = False,
        created_at = 100, read_at = None\<rparr>], next_id = 2\<rparr> 1 8
     = delete \<lparr>env_now = 200, env_flush = None\<rparr>
     \<lparr>rows = [\<lparr>id' = 1, user_id = 7, type' = SYSTEM, title = ''t'', message = ''m'',
        related_task_id = None, related_team_id = None, is_read = False,
        created_at = 100, read_at = None\<rparr>], next_id = 2\<rparr> 99 8"
proof -
  let ?n = "\<lparr>id' = 1, user_id = 7, type' = SYSTEM, title = ''t'', message = ''m'',
        related_task_id = None, related_team_id = None, is_read = False,
        created_at = 100, read_at = None\<rparr>"
  let ?d = "\<lparr>rows = [?n], next_id = 2\<rparr>"
  have h1: "wf_db ?d" by (simp add: wf_db_def)
  have h2: "?n \<in> set (rows ?d)" by simp
  have h3: "user_id ?n \<noteq> 8" by simp
  have h4: "99 \<notin> id' ` set (rows ?d)" by simp
  show ?thesis
    using h1 h4
      ownership_indistinguishable_from_absence [OF h1 h2 h3 h4, of "\<lparr>env_now = 200, env_flush = None\<rparr>"]
    by simp
qed

lemma filter_map_replace:
  "id' n' = i \<Longrightarrow>
   filter (\<lambda>x. id' x = i) (map (\<lambda>x. if id' x = i then n' else x) xs) =
     map (\<lambda>x. n') (filter (\<lambda>x. id' x = i) xs)"
  by (induction xs) auto

lemma unread_count_replace:
  assumes "filter (\<lambda>x. id' x = i) xs = [n]" "user_id n' = user_id n" "is_read n" "is_read n'"
  shows "length (filter (\<lambda>x. user_id x = u \<and> is_read x = False)
                  (map (\<lambda>x. if id' x = i then n' else x) xs)) =
         length (filter (\<lambda>x. user_id x = u \<and> is_read x = False) xs)"
proof -
  have "\<forall>x\<in>set xs. id' x = i \<longrightarrow> x = n"
  proof
    fix x assume "x \<in> set xs"
    show "id' x = i \<longrightarrow> x = n"
    proof
      assume "id' x = i"
      with \<open>x \<in> set xs\<close> have "x \<in> set (filter (\<lambda>x. id' x = i) xs)" by simp
      with assms(1) show "x = n" by simp
    qed
  qed
  then show ?thesis using assms(2-4)
    by (induction xs) auto
qed

text \<open>
  Claim C9. \<^verbatim>\<open>mark_as_read\<close> by the owner on a notification that is already read
  returns the record (not \<^verbatim>\<open>None\<close>), with \<^verbatim>\<open>is_read\<close> still true and
  \<^verbatim>\<open>read_at\<close> set to the time of this call; the stored row is that record.
\<close>

theorem mark_as_read_again:
  assumes "wf_db d"
    and "n \<in> set (rows d)"
    and "user_id n = caller"
    and "is_read n"
    and "env_flush e = None"
  shows "\<exists>n' d'.
           mark_as_read e d (id' n) caller = (Inr (Some n'), d') \<and>
           n' = n\<lparr>is_read := True, read_at := Some (env_now e)\<rparr> \<and>
           is_read n' \<and>
           read_at n' = Some (env_now e) \<and>
           get_by_id d' (id' n) = Inr (Some n') \<and>
           get_unread_count d' caller = get_unread_count d caller"
proof -
  let ?n = "n\<lparr>is_read := True, read_at := Some (env_now e)\<rparr>"
  let ?d = "d\<lparr>rows := map (\<lambda>x. if id' x = id' n then ?n else x) (rows d)\<rparr>"
  have p: "get_by_id d (id' n) = Inr (Some n)"
    using assms(1,2) by (rule get_by_id_present)
  then have f: "filter (\<lambda>x. id' x = id' n) (rows d) = [n]"
    by (rule get_by_id_SomeD)
  have idn: "id' ?n = id' n" by simp
  have m: "mark_as_read e d (id' n) caller = (Inr (Some ?n), ?d)"
    using p assms(3,5) by (simp add: mark_as_read_def Let_def)
  have g: "get_by_id ?d (id' n) = Inr (Some ?n)"
    using f by (simp add: get_by_id_def filter_map_replace [OF idn])
  have u: "get_unread_count ?d caller = get_unread_count d caller"
    using unread_count_replace [OF f, of ?n caller] assms(4)
    by (simp add: get_unread_count_def)
  show ?thesis
    apply (rule exI [of _ ?n], rule exI [of _ ?d])
    using m g u by simp
qed

theorem mark_as_read_again_witness:
  "wf_db \<lparr>rows = [\<lparr>id' = 1, user_id = 7, type' = SYSTEM, title = ''t'', message = ''m'',
        related_task_id = None, related_team_id = None, is_read = True,
        created_at = 100, read_at = Some 150\<rparr>], next_id = 2\<rparr> \<and>
   mark_as_read \<lparr>env_now = 200, env_flush = None\<rparr>
     \<lparr>rows = [\<lparr>id' = 1, user_id = 7, type' = SYSTEM, title = ''t'', message = ''m'',
        related_task_id = None, related_team_id = None, is_read = True,
        created_at = 100, read_at = Some 150\<rparr>], next_id = 2\<rparr> 1 7
     = (Inr (Some \<lparr>id' = 1, user_id = 7, type' = SYSTEM, title = ''t'', message = ''m'',
        related_task_id = None, related_team_id = None, is_read = True,
        created_at = 100, read_at = Some 200\<rparr>),
        \<lparr>rows = [\<lparr>id' = 1, user_id = 7, type' = SYSTEM, title = ''t'', message = ''m'',
        related_task_id = None, related_team_id = None, is_read = True,
        created_at = 100, read_at = Some 200\<rparr>], next_id = 2\<rparr>)"
proof -
  let ?n = "\<lparr>id' = 1, user_id = 7, type' = SYSTEM, title = ''t'', message = ''m'',
        related_task_id = None, related_team_id = None, is_read = True,
        created_at = 100, read_at = Some 150\<rparr>"
  let ?d = "\<lparr>rows = [?n], next_id = 2\<rparr>"
  let ?e = "\<lparr>env_now = 200, env_flush = None\<rparr>"
  have h0: "wf_db ?d" by (simp add: wf_db_def)
  have h1: "?n \<in> set (rows ?d)" by simp
  have h2: "user_id ?n = 7" by simp
  have h3: "is_read ?n" by simp
  have h4: "env_flush ?e = None" by simp
  from mark_as_read_again [OF h0 h1 h2 h3 h4]
  obtain n' d' where m: "mark_as_read ?e ?d (id' ?n) 7 = (Inr (Some n'), d')"
    and n': "n' = ?n\<lparr>is_read := True, read_at := Some (env_now ?e)\<rparr>"
    by blast
  have d': "d' = \<lparr>rows = [n'], next_id = 2\<rparr>"
    using m n' by (simp add: mark_as_read_def get_by_id_def Let_def)
  show ?thesis
    using h0 m n' d' by simp
qed

subsection \<open>Marking everything as read\<close>

lemma filter_after_mark:
  "filter (\<lambda>n. user_id n = u \<and> \<not> is_read n)
     (map (\<lambda>n. if user_id n = u \<and> \<not> is_read n
               then n\<lparr>is_read := True, read_at := Some t\<rparr> else n) xs) = []"
  by (induction xs) auto

lemma map_mark_id:
  "filter (\<lambda>n. user_id n = u \<and> \<not> is_read n) xs = [] \<Longrightarrow>
   map (\<lambda>n. if user_id n = u \<and> \<not> is_read n
             then n\<lparr>is_read := True, read_at := Some t\<rparr> else n) xs = xs"
  by (induction xs) (auto split: if_splits)

lemma mark_all_as_read_ok:
  "env_flush e = None \<Longrightarrow>
   mark_all_as_read e d u =
     (Inr (get_unread_count d u),
      d\<lparr>rows := map (\<lambda>n. if user_id n = u \<and> \<not> is_read n
                           then n\<lparr>is_read := True, read_at := Some (env_now e)\<rparr>
                           else n) (rows d)\<rparr>)"
  by (simp add: mark_all_as_read_def get_unread_count_def Let_def)

lemma mark_all_as_read_snd:
  "snd (mark_all_as_read e d u) =
      d\<lparr>rows := map (\<lambda>n. if user_id n = u \<and> \<not> is_read n
                           then n\<lparr>is_read := True, read_at := Some (env_now e)\<rparr>
                           else n) (rows d)\<rparr>"
  by (simp add: mark_all_as_read_def Let_def split: option.splits)

lemma unread_count_zero_iff:
  "get_unread_count d u = 0 \<longleftrightarrow> filter (\<lambda>n. user_id n = u \<and> \<not> is_read n) (rows d) = []"
  by (simp add: get_unread_count_def)

text \<open>
  Claim C6, amended. \<^verbatim>\<open>mark_all_as_read\<close> returns the number of notifications of
  the caller that were unread, which is nonzero exactly when there was one; it sets
  \<^verbatim>\<open>is_read\<close> on exactly those rows; afterwards the caller has no unread
  notification, and a second call returns zero and changes nothing.
\<close>

theorem mark_all_as_read_twice:
  assumes "env_flush e1 = None" and "env_flush e2 = None"
  shows "\<exists>d1.
           mark_all_as_read e1 d uid = (Inr (get_unread_count d uid), d1) \<and>
           (get_unread_count d uid \<noteq> 0 \<longleftrightarrow> (\<exists>n \<in> set (rows d). user_id n = uid \<and> \<not> is_read n)) \<and>
           map is_read (rows d1) = map (\<lambda>n. is_read n \<or> user_id n = uid) (rows d) \<and>
           get_unread_count d1 uid = 0 \<and>
           mark_all_as_read e2 d1 uid = (Inr 0, d1)"
proof -
  let ?f = "\<lambda>t n. if user_id n = uid \<and> \<not> is_read n
                   then n\<lparr>is_read := True, read_at := Some t\<rparr> else n"
  let ?d1 = "d\<lparr>rows := map (?f (env_now e1)) (rows d)\<rparr>"
  have a: "mark_all_as_read e1 d uid = (Inr (get_unread_count d uid), ?d1)"
    using assms(1) by (rule mark_all_as_read_ok)
  have b: "get_unread_count d uid \<noteq> 0 \<longleftrightarrow> (\<exists>n \<in> set (rows d). user_id n = uid \<and> \<not> is_read n)"
    by (auto simp: unread_count_zero_iff filter_empty_conv)
  have c: "map is_read (rows ?d1) = map (\<lambda>n. is_read n \<or> user_id n = uid) (rows d)"
    by auto
  have z: "filter (\<lambda>n. user_id n = uid \<and> \<not> is_read n) (rows ?d1) = []"
    by (simp add: filter_after_mark)
  then have u: "get_unread_count ?d1 uid = 0"
    by (simp add: unread_count_zero_iff)
  have "map (?f (env_now e2)) (rows ?d1) = rows ?d1"
    using z by (rule map_mark_id)
  then have "?d1\<lparr>rows := map (?f (env_now e2)) (rows ?d1)\<rparr> = ?d1"
    by simp
  with mark_all_as_read_ok [OF assms(2), of ?d1 uid] u
  have s: "mark_all_as_read e2 ?d1 uid = (Inr 0, ?d1)"
    by simp
  show ?thesis
    apply (rule exI [of _ ?d1])
    using a b c u s by (intro conjI) assumption+
qed

theorem mark_all_as_read_twice_witness:
  "env_flush \<lparr>env_now = 200, env_flush = None\<rparr> = None \<and>
   env_flush \<lparr>env_now = 300, env_flush = None\<rparr> = None \<and>
   fst (mark_all_as_read \<lparr>env_now = 200, env_flush = None\<rparr>
     \<lparr>rows = [\<lparr>id' = 1, user_id = 7, type' = SYSTEM, title = ''t'', message = ''m'',
        related_task_id = None, related_team_id = None, is_read = False,
        created_at = 100, read_at = None\<rparr>], next_id = 2\<rparr> 7) = Inr 1 \<and>
   fst (mark_all_as_read \<lparr>env_now = 300, env_flush = None\<rparr>
     (snd (mark_all_as_read \<lparr>env_now = 200, env_flush = None\<rparr>
     \<lparr>rows = [\<lparr>id' = 1, user_id = 7, type' = SYSTEM, title = ''t'', message = ''m'',
        related_task_id = None, related_team_id = None, is_read = False,
        created_at = 100, read_at = None\<rparr>], next_id = 2\<rparr> 7)) 7) = Inr 0"
proof -
  let ?d = "\<lparr>rows = [\<lparr>id' = 1, user_id = 7, type' = SYSTEM, title = ''t'', message = ''m'',
        related_task_id = None, related_team_id = None, is_read = False,
        created_at = 100, read_at = None\<rparr>], next_id = 2\<rparr>"
  let ?e1 = "\<lparr>env_now = 200, env_flush = None\<rparr>"
  let ?e2 = "\<lparr>env_now = 300, env_flush = None\<rparr>"
  have h1: "env_flush ?e1 = None" by simp
  have h2: "env_flush ?e2 = None" by simp
  from mark_all_as_read_twice [OF h1 h2, of ?d 7]
  obtain d1 where a: "mark_all_as_read ?e1 ?d 7 = (Inr (get_unread_count ?d 7), d1)"
    and s: "mark_all_as_read ?e2 d1 7 = (Inr 0, d1)"
    by blast
  have c: "get_unread_count ?d 7 = 1" by (simp add: get_unread_count_def)
  show ?thesis
    using a s c by simp
qed

text \<open>
  Claim C6 as stated asks for a nonzero count from the first of two calls. For a caller
  whose only notification is already read the first call returns zero.
\<close>

theorem mark_all_as_read_nonzero_counterexample:
  "fst (mark_all_as_read \<lparr>env_now = 200, env_flush = None\<rparr>
     \<lparr>rows = [\<lparr>id' = 1, user_id = 7, type' = SYSTEM, title = ''t'', message = ''m'',
        related_task_id = None, related_team_id = None, is_read = True,
        created_at = 100, read_at = Some 150\<rparr>], next_id = 2\<rparr> 7) = Inr 0"
  by (simp add: mark_all_as_read_def)

text \<open>
  Claim C10. \<^verbatim>\<open>mark_all_as_read\<close> keeps the number and the order of the rows; a row
  of another user, or a row of the caller that is already read, is the same row afterwards
  (with its \<^verbatim>\<open>read_at\<close>); and on every row only \<^verbatim>\<open>is_read\<close> and
  \<^verbatim>\<open>read_at\<close> can differ from before.
\<close>

theorem mark_all_as_read_frame:
  "length (rows (snd (mark_all_as_read e d uid))) = length (rows d) \<and>
   next_id (snd (mark_all_as_read e d uid)) = next_id d \<and>
   (\<forall>i < length (rows d).
      (user_id (rows d ! i) \<noteq> uid \<or> is_read (rows d ! i)) \<longrightarrow>
      rows (snd (mark_all_as_read e d uid)) ! i = rows d ! i) \<and>
   (\<forall>i < length (rows d).
      rows (snd (mark_all_as_read e d uid)) ! i =
        (rows d ! i)\<lparr>is_read := is_read (rows (snd (mark_all_as_read e d uid)) ! i),
                     read_at := read_at (rows (snd (mark_all_as_read e d uid)) ! i)\<rparr>)"
  by (auto simp: mark_all_as_read_snd)

theorem mark_all_as_read_frame_witness:
  "is_read (rows \<lparr>rows = [\<lparr>id' = 1, user_id = 7, type' = SYSTEM, title = ''a'', message = ''m'',
                related_task_id = None, related_team_id = None, is_read = False,
                created_at = 100, read_at = None\<rparr>,
              \<lparr>id' = 2, user_id = 7, type' = MENTION, title = ''b'', message = ''m'',
                related_task_id = Some 4, related_team_id = None, is_read = True,
                created_at = 110, read_at = Some 150\<rparr>,
              \<lparr>id' = 3, user_id = 8, type' = SYSTEM, title = ''c'', message = ''m'',
                related_task_id = None, related_team_id = Some 5, is_read = False,
                created_at = 120, read_at = None\<rparr>], next_id = 4\<rparr> ! 1) \<and>
   snd (mark_all_as_read \<lparr>env_now = 200, env_flush = None\<rparr>
     \<lparr>rows = [\<lparr>id' = 1, user_id = 7, type' = SYSTEM, title = ''a'', message = ''m'',
                related_task_id = None, related_team_id = None, is_read = False,
                created_at = 100, read_at = None\<rparr>,
              \<lparr>id' = 2, user_id = 7, type' = MENTION, title = ''b'', message = ''m'',
                related_task_id = Some 4, related_team_id = None, is_read = True,
                created_at = 110, read_at = Some 150\<rparr>,
              \<lparr>id' = 3, user_id = 8, type' = SYSTEM, title = ''c'', message = ''m'',
                related_task_id = None, related_team_id = Some 5, is_read = False,
                created_at = 120, read_at = None\<rparr>], next_id = 4\<rparr> 7)
   = \<lparr>rows = [\<lparr>id' = 1, user_id = 7, type' = SYSTEM, title = ''a'', message = ''m'',
                related_task_id = None, related_team_id = None, is_read = True,
                created_at = 100, read_at = Some 200\<rparr>,
              \<lparr>id' = 2, user_id = 7, type' = MENTION, title = ''b'', message = ''m'',
                related_task_id = Some 4, related_team_id = None, is_read = True,
                created_at = 110, read_at = Some 150\<rparr>,
              \<lparr>id' = 3, user_id = 8, type' = SYSTEM, title = ''c'', message = ''m'',
                related_task_id = None, related_team_id = Some 5, is_read = False,
                created_at = 120, read_at = None\<rparr>], next_id = 4\<rparr> \<and>
   rows (snd (mark_all_as_read \<lparr>env_now = 200, env_flush = None\<rparr>
     \<lparr>rows = [\<lparr>id' = 1, user_id = 7, type' = SYSTEM, title = ''a'', message = ''m'',
                related_task_id = None, related_team_id = None, is_read = False,
                created_at = 100, read_at = None\<rparr>,
              \<lparr>id' = 2, user_id = 7, type' = MENTION, title = ''b'', message = ''m'',
                related_task_id = Some 4, related_team_id = None, is_read = True,
                created_at = 110, read_at = Some 150\<rparr>,
              \<lparr>id' = 3, user_id = 8, type' = SYSTEM, title = ''c'', message = ''m'',
                related_task_id = None, related_team_id = Some 5, is_read = False,
                created_at = 120, read_at = None\<rparr>], next_id = 4\<rparr> 7)) ! 1
   = \<lparr>id' = 2, user_id = 7, type' = MENTION, title = ''b'', message = ''m'',
                related_task_id = Some 4, related_team_id = None, is_read = True,
                created_at = 110, read_at = Some 150\<rparr>"
proof -
  let ?r1 = "\<lparr>id' = 1, user_id = 7, type' = SYSTEM, title = ''a'', message = ''m'',
                related_task_id = None, related_team_id = None, is_read = False,
                created_at = 100, read_at = None\<rparr>"
  let ?r2 = "\<lparr>id' = 2, user_id = 7, type' = MENTION, title = ''b'', message = ''m'',
                related_task_id = Some 4, related_team_id = None, is_read = True,
                created_at = 110, read_at = Some 150\<rparr>"
  let ?r3 = "\<lparr>id' = 3, user_id = 8, type' = SYSTEM, title = ''c'', message = ''m'',
                related_task_id = None, related_team_id = Some 5, is_read = False,
                created_at = 120, read_at = None\<rparr>"
  let ?d = "\<lparr>rows = [?r1, ?r2, ?r3], next_id = 4\<rparr>"
  let ?e = "\<lparr>env_now = 200, env_flush = None\<rparr>"
  let ?d' = "snd (mark_all_as_read ?e ?d 7)"
  have h: "is_read (rows ?d ! 1)" by simp
  from mark_all_as_read_frame [of ?e ?d 7]
  have "(1::nat) < length (rows ?d) \<longrightarrow>
      (user_id (rows ?d ! 1) \<noteq> 7 \<or> is_read (rows ?d ! 1)) \<longrightarrow> rows ?d' ! 1 = rows ?d ! 1"
    by blast
  then have k1: "rows ?d' ! 1 = ?r2" by simp
  have ev: "?d' = \<lparr>rows = [?r1\<lparr>is_read := True, read_at := Some 200\<rparr>, ?r2, ?r3], next_id = 4\<rparr>"
    by (simp add: mark_all_as_read_def)
  show ?thesis
    using h k1 ev by simp
qed

subsection \<open>Task assignment\<close>

lemma notify_task_assigned_ok:
  "env_flush e = None \<Longrightarrow> reg u = None \<Longrightarrow>
   notify_task_assigned e t reg d task_id task_title u assigner_name =
     (Inr \<lparr>id' = next_id d, user_id = u, type' = TASK_ASSIGNED, title = ''New Task Assigned'',
           message = assigner_name @ '' assigned you to task '' @ [CHR 0x22] @ task_title @ [CHR 0x22],
           related_task_id = Some task_id, related_team_id = None, is_read = False,
           created_at = env_now e, read_at = None\<rparr>,
      d\<lparr>rows := rows d @
          [\<lparr>id' = next_id d, user_id = u, type' = TASK_ASSIGNED, title = ''New Task Assigned'',
           message = assigner_name @ '' assigned you to task '' @ [CHR 0x22] @ task_title @ [CHR 0x22],
           related_task_id = Some task_id, related_team_id = None, is_read = False,
           created_at = env_now e, read_at = None\<rparr>],
         next_id := next_id d + 1\<rparr>,
      [])"
  by (simp add: notify_task_assigned_def create_ok created_row_def send_notification_none)

text \<open>
  Claim C7. For a user who is not a key of the registry, \<^verbatim>\<open>notify_task_assigned\<close>
  stores and returns a row of type \<^verbatim>\<open>TASK_ASSIGNED\<close> with the title
  \<^verbatim>\<open>New Task Assigned\<close>, a message that contains the assigner's name and the title
  of the task, the task id as \<^verbatim>\<open>related_task_id\<close> and \<^verbatim>\<open>is_read\<close> false;
  no push is made; the unread count of the user grows by one, so it is 1 when the user had
  no unread notification before. The scenario of the specification is the instance with
  task 42, title \<^verbatim>\<open>Ship release\<close> and assigner \<^verbatim>\<open>alice\<close> on the empty store.
\<close>

theorem scenario_task_assigned:
  assumes "env_flush e = None" and "reg u = None"
  shows "\<exists>n d'.
           notify_task_assigned e t reg d task_id task_title u assigner_name = (Inr n, d', []) \<and>
           n \<in> set (rows d') \<and>
           user_id n = u \<and>
           type' n = TASK_ASSIGNED \<and>
           title n = ''New Task Assigned'' \<and>
           sublist assigner_name (message n) \<and>
           sublist task_title (message n) \<and>
           related_task_id n = Some task_id \<and>
           is_read n = False \<and>
           get_unread_count d' u = get_unread_count d u + 1 \<and>
           (get_unread_count d u = 0 \<longrightarrow> get_unread_count d' u = 1)"
proof -
  let ?m = "assigner_name @ '' assigned you to task '' @ [CHR 0x22] @ task_title @ [CHR 0x22]"
  let ?n = "\<lparr>id' = next_id d, user_id = u, type' = TASK_ASSIGNED, title = ''New Task Assigned'',
           message = ?m, related_task_id = Some task_id, related_team_id = None, is_read = False,
           created_at = env_now e, read_at = None\<rparr>"
  let ?d = "d\<lparr>rows := rows d @ [?n], next_id := next_id d + 1\<rparr>"
  have a: "notify_task_assigned e t reg d task_id task_title u assigner_name = (Inr ?n, ?d, [])"
    using assms by (rule notify_task_assigned_ok)
  have s1: "sublist assigner_name ?m"
    by (metis append_Nil sublist_appendI)
  have "?m = (assigner_name @ '' assigned you to task '' @ [CHR 0x22]) @ task_title @ [CHR 0x22]"
    by simp
  then have s2: "sublist task_title ?m"
    by (metis sublist_appendI)
  have c: "get_unread_count ?d u = get_unread_count d u + 1"
    by (simp add: unread_count_append)
  show ?thesis
    apply (rule exI [of _ ?n], rule exI [of _ ?d])
    using a s1 s2 c by simp
qed

theorem scenario_task_assigned_witness:
  "env_flush \<lparr>env_now = 100, env_flush = None\<rparr> = None \<and>
   init_registry 1 = None \<and>
   get_unread_count empty_db 1 = 0 \<and>
   fst (notify_task_assigned \<lparr>env_now = 100, env_flush = None\<rparr>
      \<lparr>net_send_json = (\<lambda>c m. Sent), net_iter_order = sorted_list_of_fset\<rparr>
      init_registry empty_db 42 ''Ship release'' 1 ''alice'')
     = Inr \<lparr>id' = 1, user_id = 1, type' = TASK_ASSIGNED, title = ''New Task Assigned'',
            message = ''alice assigned you to task '' @ [CHR 0x22] @ ''Ship release'' @ [CHR 0x22],
            related_task_id = Some 42, related_team_id = None, is_read = False,
            created_at = 100, read_at = None\<rparr> \<and>
   get_unread_count (fst (snd (notify_task_assigned \<lparr>env_now = 100, env_flush = None\<rparr>
      \<lparr>net_send_json = (\<lambda>c m. Sent), net_iter_order = sorted_list_of_fset\<rparr>
      init_registry empty_db 42 ''Ship release'' 1 ''alice''))) 1 = 1"
proof -
  let ?e = "\<lparr>env_now = 100, env_flush = None\<rparr>"
  let ?t = "\<lparr>net_send_json = (\<lambda>c m. Sent), net_iter_order = sorted_list_of_fset\<rparr>"
  have h1: "env_flush ?e = None" by simp
  have h2: "init_registry 1 = None" by (simp add: init_registry_def)
  have h3: "get_unread_count empty_db 1 = 0" by (simp add: get_unread_count_def empty_db_def)
  from scenario_task_assigned [where e = ?e and reg = init_registry and u = 1 and t = ?t
      and d = empty_db and task_id = 42 and task_title = "''Ship release''"
      and assigner_name = "''alice''", OF h1 h2]
  obtain n d' where a: "notify_task_assigned ?e ?t init_registry empty_db 42 ''Ship release'' 1 ''alice''
        = (Inr n, d', [])"
    and c: "get_unread_count empty_db 1 = 0 \<longrightarrow> get_unread_count d' 1 = 1"
    by blast
  have cnt: "get_unread_count (fst (snd (notify_task_assigned ?e ?t init_registry empty_db 42
        ''Ship release'' 1 ''alice''))) 1 = 1"
    using a c h3 by simp
  have ev: "fst (notify_task_assigned ?e ?t init_registry empty_db 42 ''Ship release'' 1 ''alice'')
     = Inr \<lparr>id' = 1, user_id = 1, type' = TASK_ASSIGNED, title = ''New Task Assigned'',
            message = ''alice assigned you to task '' @ [CHR 0x22] @ ''Ship release'' @ [CHR 0x22],
            related_task_id = Some 42, related_team_id = None, is_read = False,
            created_at = 100, read_at = None\<rparr>"
    by (simp add: notify_task_assigned_ok [where reg = init_registry and u = 1, OF h1 h2] empty_db_def)
  show ?thesis
    by (intro conjI) (rule h1 h2 h3 ev cnt)+
qed

subsection \<open>Rejecting a live connection\<close>




lemma websocket_accepts_example:
  "websocket_endpoint
      \<lparr>decode_token = (\<lambda>s. if s = ''good'' then Some [''sub'' \<mapsto> ''1''] else None),
       auth_int = (\<lambda>s. if s = ''1'' then Some 1 else None),
       auth_user = (\<lambda>i. if i = 1 then Some \<lparr>user_pk = 1, is_active = True\<rparr> else None)\<rparr>
      None init_registry 5 (Some ''good'') [ReceiveText ''ping'', ReceiveText ''x'', WebSocketDisconnect]
     = (None, [ManagerConnect 1, WsSendText ''pong'', ManagerDisconnect 1], init_registry)"
  by (simp add: websocket_endpoint_def get_current_user_ws_def connect_apply disconnect_apply
      init_registry_def connections_of_def fun_eq_iff)

end
